theory Spec2Isabelle
  imports Main
begin

section \<open>JavaScript values, property keys and property reads\<close>

text \<open>
  The values held in the root object table (\<^verbatim>\<open>data = Observable.from({})\<close>) and carried by
  change records. Numbers are only carried, never computed with. Inside a value only own
  properties are modelled: there a name inherited from a prototype (\<^verbatim>\<open>toString\<close>,
  \<^verbatim>\<open>constructor\<close>) reads as absent, and functions, booleans and numbers have no properties.
  The members that the table object itself answers are modelled, in \<open>data_get\<close> below.
\<close>

datatype jsval =
    JUndefined
  | JNull
  | JBool bool
  | JNum int
  | JStr string
  | JFun
  | JArr "jsval list"
  | JObj "(string \<times> jsval) list"

text \<open>A path segment of a change record: a field name or an array index.\<close>

datatype segment = Name string | Idx nat

text \<open>
  The errors of the engine: \<^verbatim>\<open>throw new Error('No such key: ' + key)\<close> of \<^verbatim>\<open>link\<close>, and
  the TypeError that JavaScript raises on a property read of \<^verbatim>\<open>undefined\<close> or \<^verbatim>\<open>null\<close>.
\<close>

datatype error = NoSuchKey string | TypeError

text \<open>
  The decimal form that JavaScript gives a non-negative integer used as a property key.
  (This is the form of every array index; from \<^verbatim>\<open>1e21\<close> on JavaScript writes an exponent.)
\<close>

fun decimal :: "nat \<Rightarrow> string" where
  "decimal n =
     (if n < 10 then [char_of (48 + n)]
      else decimal (n div 10) @ [char_of (48 + n mod 10)])"

declare decimal.simps [simp del]

text \<open>
  \<^verbatim>\<open>path[0]\<close> is a string, a number, or \<^verbatim>\<open>undefined\<close> when the path is empty: a
  \<open>segment option\<close>. Used as a property key (\<^verbatim>\<open>this.map[key]\<close>) it is converted to a string.
\<close>

fun key_str :: "segment option \<Rightarrow> string" where
  "key_str None = ''undefined''"
| "key_str (Some (Name s)) = s"
| "key_str (Some (Idx i)) = decimal i"

definition path0 :: "segment list \<Rightarrow> segment option" where
  "path0 p = (case p of [] \<Rightarrow> None | s # _ \<Rightarrow> Some s)"

text \<open>The element of an \<open>n\<close>-element array or string that a segment selects, if any.\<close>

fun own_index :: "segment \<Rightarrow> nat \<Rightarrow> nat option" where
  "own_index (Idx i) n = (if i < n then Some i else None)"
| "own_index (Name s) n = find (\<lambda>i. decimal i = s) [0..<n]"

text \<open>\<^verbatim>\<open>obj[name]\<close> on the fields of an object: an absent field reads as \<^verbatim>\<open>undefined\<close>.\<close>

definition field :: "(string \<times> jsval) list \<Rightarrow> string \<Rightarrow> jsval" where
  "field fs k = (case map_of fs k of None \<Rightarrow> JUndefined | Some v \<Rightarrow> v)"

text \<open>
  The names that every plain object answers from \<^verbatim>\<open>Object.prototype\<close>, and the methods of the
  observable: \<^verbatim>\<open>data\<close> is \<^verbatim>\<open>Observable.from({})\<close>, whose \<^verbatim>\<open>observe\<close> the engine calls, and
  which also has \<^verbatim>\<open>unobserve\<close> and \<^verbatim>\<open>revoke\<close>.
\<close>

definition object_prototype_members :: "string list" where
  "object_prototype_members =
     [''constructor'', ''__defineGetter__'', ''__defineSetter__'', ''hasOwnProperty'',
      ''__lookupGetter__'', ''__lookupSetter__'', ''isPrototypeOf'', ''propertyIsEnumerable'',
      ''toString'', ''valueOf'', ''__proto__'', ''toLocaleString'']"

definition observable_members :: "string list" where
  "observable_members = [''observe'', ''unobserve'', ''revoke'']"

definition table_member :: "string \<Rightarrow> bool" where
  "table_member k = (k \<in> set observable_members \<or> k \<in> set object_prototype_members)"

text \<open>
  \<^verbatim>\<open>data[key]\<close> on the root object table: the root object stored under the key, and
  without one the member that the table object answers by itself, a function
  (\<^verbatim>\<open>__proto__\<close> is an object). \<^verbatim>\<open>typeof data[key] === 'undefined'\<close> is
  \<open>data_get d key = JUndefined\<close>.
\<close>

definition data_get :: "(string \<times> jsval) list \<Rightarrow> string \<Rightarrow> jsval" where
  "data_get d k =
     (case map_of d k of
        Some v \<Rightarrow> v
      | None \<Rightarrow>
          if k = ''__proto__'' then JObj [] else if table_member k then JFun else JUndefined)"

text \<open>\<^verbatim>\<open>cursor[segment]\<close>.\<close>

fun js_get :: "jsval \<Rightarrow> segment \<Rightarrow> error + jsval" where
  "js_get JUndefined s = Inl TypeError"
| "js_get JNull s = Inl TypeError"
| "js_get (JObj fs) s = Inr (field fs (key_str (Some s)))"
| "js_get (JArr xs) s =
     Inr (if s = Name ''length'' then JNum (int (length xs))
          else case own_index s (length xs) of None \<Rightarrow> JUndefined | Some i \<Rightarrow> xs ! i)"
| "js_get (JStr cs) s =
     Inr (if s = Name ''length'' then JNum (int (length cs))
          else case own_index s (length cs) of None \<Rightarrow> JUndefined | Some i \<Rightarrow> JStr [cs ! i])"
| "js_get v s = Inr JUndefined"

section \<open>Change records and protocol messages\<close>

text \<open>
  A change record of the observable store: \<^verbatim>\<open>{ type, path, value }\<close>; \<open>cvalue\<close> is
  \<open>JUndefined\<close> when the record carries no new value.
\<close>

record change =
  ctype :: string
  cpath :: "segment list"
  cvalue :: jsval

text \<open>
  A protocol message \<^verbatim>\<open>{ op, key, path?, value? }\<close>; \<open>None\<close> is a field the object
  literal does not have. The wire values \<open>'w\<close> are the codec's.
\<close>

record 'w message =
  op :: string
  key :: "segment option"
  path :: "segment list option"
  val :: "'w option"

section \<open>The change translator\<close>

text \<open>
  \<^verbatim>\<open>withPath(d, path)\<close>: the \<^verbatim>\<open>forEach\<close> loop over the segments, with the cursor as
  accumulator. Its guard \<^verbatim>\<open>typeof segment !== undefined\<close> compares a string with the value
  \<^verbatim>\<open>undefined\<close> and is always true, so every segment is followed.
\<close>

fun withPath :: "jsval \<Rightarrow> segment list \<Rightarrow> error + jsval" where
  "withPath cursor [] = Inr cursor"
| "withPath cursor (segment # rest) =
     (case js_get cursor segment of
        Inl e \<Rightarrow> Inl e
      | Inr v \<Rightarrow> withPath v rest)"

text \<open>The codec \<^verbatim>\<open>serialize = sejr.describe\<close> is an external library: a parameter.\<close>

definition updateFromPath ::
  "(jsval \<Rightarrow> 'w) \<Rightarrow> change \<Rightarrow> (string \<times> jsval) list \<Rightarrow> error + 'w message" where
  "updateFromPath serialize c d =
     (case withPath (JObj d) (cpath c) of
        Inl e \<Rightarrow> Inl e
      | Inr v \<Rightarrow>
          Inr \<lparr>op = ''update'', key = path0 (cpath c), path = Some (drop 1 (cpath c)),
               val = Some (serialize v)\<rparr>)"

definition insertStyleUpdate :: "(jsval \<Rightarrow> 'w) \<Rightarrow> string \<Rightarrow> change \<Rightarrow> 'w message" where
  "insertStyleUpdate serialize opname c =
     \<lparr>op = opname, key = path0 (cpath c), path = Some (drop 1 (cpath c)),
      val = (if cvalue c \<noteq> JUndefined then Some (serialize (cvalue c)) else None)\<rparr>"

text \<open>The table \<^verbatim>\<open>changeTypes\<close>: the \<^verbatim>\<open>buildMessage\<close> of a change type, if it has one.\<close>

definition changeTypes ::
  "(jsval \<Rightarrow> 'w) \<Rightarrow> string \<Rightarrow> (change \<Rightarrow> (string \<times> jsval) list \<Rightarrow> error + 'w message) option"
where
  "changeTypes serialize t =
     (if t = ''insert'' then Some (\<lambda>c d. Inr (insertStyleUpdate serialize ''insert'' c))
      else if t = ''update'' then Some (\<lambda>c d. Inr (insertStyleUpdate serialize ''update'' c))
      else if t = ''delete'' then Some (\<lambda>c d. Inr (insertStyleUpdate serialize ''delete'' c))
      else if t = ''shuffle'' then Some (updateFromPath serialize)
      else if t = ''reverse'' then Some (updateFromPath serialize)
      else None)"

section \<open>MapOfLists\<close>

text \<open>
  \<^verbatim>\<open>this.map\<close>, an object used as a dictionary from property keys (strings) to arrays. The
  map holds the own entries. A key that names a member of \<^verbatim>\<open>Object.prototype\<close> is outside
  this model: under such a key, and without an own entry, \<^verbatim>\<open>with\<close> returns the inherited
  member, which is no array, and the caller's \<^verbatim>\<open>push\<close>, \<^verbatim>\<open>forEach\<close> or \<^verbatim>\<open>filter\<close> raises a
  TypeError. No key that holds a registration is such a name, since \<^verbatim>\<open>with\<close> never creates
  an entry under one.
\<close>

type_synonym 'a MapOfLists = "string \<rightharpoonup> 'a list"

definition mol_removeAll :: "string \<Rightarrow> 'a MapOfLists \<Rightarrow> 'a MapOfLists" where
  "mol_removeAll k m = m(k := None)"

text \<open>\<^verbatim>\<open>set(key, value)\<close>: an empty array deletes the entry.\<close>

definition mol_set :: "string \<Rightarrow> 'a list \<Rightarrow> 'a MapOfLists \<Rightarrow> 'a MapOfLists" where
  "mol_set k v m = (if length v = 0 then m(k := None) else m(k \<mapsto> v))"

text \<open>
  \<^verbatim>\<open>with(key)\<close>: a missing entry is first created as the empty array; the result is the
  array of the entry together with the map as \<^verbatim>\<open>with\<close> leaves it.
\<close>

definition mol_with :: "string \<Rightarrow> 'a MapOfLists \<Rightarrow> 'a list \<times> 'a MapOfLists" where
  "mol_with k m = (case m k of None \<Rightarrow> ([], m(k \<mapsto> [])) | Some l \<Rightarrow> (l, m))"

text \<open>The array that a lookup finds under a key: empty when the entry is absent.\<close>

definition entries :: "'a MapOfLists \<Rightarrow> string \<Rightarrow> 'a list" where
  "entries m k = (case m k of None \<Rightarrow> [] | Some l \<Rightarrow> l)"

text \<open>\<^verbatim>\<open>with(key).push(x)\<close>: \<^verbatim>\<open>with\<close> returns the stored array itself, which \<^verbatim>\<open>push\<close> extends.\<close>

definition mol_push :: "string \<Rightarrow> 'a \<Rightarrow> 'a MapOfLists \<Rightarrow> 'a MapOfLists" where
  "mol_push k x m = (case mol_with k m of (l, m') \<Rightarrow> m'(k \<mapsto> l @ [x]))"

section \<open>The transport and the state of the engine\<close>

text \<open>
  Client handles \<open>'c\<close> are the transport's; \<^verbatim>\<open>!==\<close> on them is equality of \<open>'c\<close>.
  \<open>tid\<close> is \<^verbatim>\<open>transport.id(client)\<close>. \<open>handle_key\<close> is the property key that JavaScript
  makes of the handle itself in \<^verbatim>\<open>this.map[client]\<close>: the handle when it is a string,
  \<^verbatim>\<open>[object Object]\<close> when it is a plain object.
\<close>

record 'c transport =
  tid :: "'c \<Rightarrow> string"
  handle_key :: "'c \<Rightarrow> string"

text \<open>
  The state: the root object table (the fields of \<^verbatim>\<open>data\<close>), the two maps of
  \<^verbatim>\<open>SubscriberState\<close>, and the log of every \<^verbatim>\<open>transport.send(client, message)\<close>, in order.
\<close>

record ('c, 'w) engine =
  data :: "(string \<times> jsval) list"
  keyToSubscribedClients :: "'c MapOfLists"
  clientsToSubscriptions :: "string MapOfLists"
  sent :: "('c \<times> 'w message) list"

definition initial :: "('c, 'w) engine" where
  "initial = \<lparr>data = [], keyToSubscribedClients = Map.empty,
              clientsToSubscriptions = Map.empty, sent = []\<rparr>"

section \<open>SubscriberState\<close>

text \<open>
  The methods of the class; \<open>ss_link\<close> and \<open>ss_unlink\<close> are its \<^verbatim>\<open>link\<close> and \<^verbatim>\<open>unlink\<close>,
  which the functions of the same names on the engine's public surface call.
\<close>

definition unlinkSilently :: "'c \<Rightarrow> string \<Rightarrow> ('c, 'w) engine \<Rightarrow> ('c, 'w) engine" where
  "unlinkSilently client k st =
     (case mol_with k (keyToSubscribedClients st) of
        (l, m) \<Rightarrow> st\<lparr>keyToSubscribedClients := mol_set k (filter (\<lambda>e. e \<noteq> client) l) m\<rparr>)"

definition sendObjectUpdate ::
  "segment option \<Rightarrow> 'w message \<Rightarrow> ('c, 'w) engine \<Rightarrow> ('c, 'w) engine" where
  "sendObjectUpdate rootObjectName message st =
     (case mol_with (key_str rootObjectName) (keyToSubscribedClients st) of
        (l, m) \<Rightarrow>
          st\<lparr>keyToSubscribedClients := m,
             sent := sent st @ map (\<lambda>client. (client, message)) l\<rparr>)"

definition ss_link ::
  "'c transport \<Rightarrow> (jsval \<Rightarrow> 'w) \<Rightarrow> 'c \<Rightarrow> string \<Rightarrow> ('c, 'w) engine \<Rightarrow> ('c, 'w) engine" where
  "ss_link tr serialize client k st =
     st\<lparr>keyToSubscribedClients := mol_push k client (keyToSubscribedClients st),
        clientsToSubscriptions := mol_push (tid tr client) k (clientsToSubscriptions st),
        sent := sent st @
          [(client, \<lparr>op = ''init'', key = Some (Name k), path = None,
                     val = Some (serialize (data_get (data st) k))\<rparr>)]\<rparr>"

definition ss_unlink :: "'c \<Rightarrow> string \<Rightarrow> ('c, 'w) engine \<Rightarrow> ('c, 'w) engine" where
  "ss_unlink client k st =
     (let st' = unlinkSilently client k st
      in st'\<lparr>sent := sent st' @
           [(client, \<lparr>op = ''closed'', key = Some (Name k), path = None, val = None\<rparr>)]\<rparr>)"

text \<open>
  \<^verbatim>\<open>clearSubscribers(key)\<close>, called with \<^verbatim>\<open>rootObjectName\<close>. The loop body reads and
  writes \<^verbatim>\<open>clientsToSubscriptions\<close> under the handle itself; \<^verbatim>\<open>e !== key\<close> compares a
  stored key (a string) with \<^verbatim>\<open>rootObjectName\<close>.
\<close>

definition clearOne :: "'c transport \<Rightarrow> segment option \<Rightarrow> 'c \<Rightarrow> string MapOfLists \<Rightarrow> string MapOfLists"
where
  "clearOne tr k client c2k =
     (case mol_with (handle_key tr client) c2k of
        (subs, m) \<Rightarrow> mol_set (handle_key tr client) (filter (\<lambda>e. Some (Name e) \<noteq> k) subs) m)"

definition clearSubscribers ::
  "'c transport \<Rightarrow> segment option \<Rightarrow> ('c, 'w) engine \<Rightarrow> ('c, 'w) engine" where
  "clearSubscribers tr k st =
     (case mol_with (key_str k) (keyToSubscribedClients st) of
        (l, m) \<Rightarrow>
          st\<lparr>keyToSubscribedClients := mol_removeAll (key_str k) m,
             clientsToSubscriptions := fold (clearOne tr k) l (clientsToSubscriptions st)\<rparr>)"

text \<open>The handler that the constructor registers with \<^verbatim>\<open>transport.on('disconnect', ...)\<close>.\<close>

definition disconnect :: "'c transport \<Rightarrow> 'c \<Rightarrow> ('c, 'w) engine \<Rightarrow> ('c, 'w) engine" where
  "disconnect tr client st =
     (case mol_with (handle_key tr client) (clientsToSubscriptions st) of
        (subs, m) \<Rightarrow> fold (unlinkSilently client) subs (st\<lparr>clientsToSubscriptions := m\<rparr>))"

section \<open>The sync engine\<close>

text \<open>
  The \<^verbatim>\<open>message\<close> of the \<^verbatim>\<open>data.observe\<close> handler for one change: the \<^verbatim>\<open>finalize\<close> of a
  root deletion, and otherwise \<^verbatim>\<open>changeTypes[change.type].buildMessage(change, data)\<close>, which
  is a TypeError for a type that the table does not have.
\<close>

definition translate ::
  "(jsval \<Rightarrow> 'w) \<Rightarrow> change \<Rightarrow> (string \<times> jsval) list \<Rightarrow> error + 'w message" where
  "translate serialize c d =
     (if ctype c = ''delete'' \<and> length (cpath c) = 1
      then Inr \<lparr>op = ''finalize'', key = path0 (cpath c), path = None, val = None\<rparr>
      else case changeTypes serialize (ctype c) of
             None \<Rightarrow> Inl TypeError
           | Some build \<Rightarrow> build c d)"

text \<open>
  The body of the handler for one change. An exception leaves the state as it is at that
  point and is returned beside it.
\<close>

definition on_change ::
  "'c transport \<Rightarrow> (jsval \<Rightarrow> 'w) \<Rightarrow> change \<Rightarrow> ('c, 'w) engine \<Rightarrow> error option \<times> ('c, 'w) engine"
where
  "on_change tr serialize c st =
     (let rootObjectName = path0 (cpath c)
      in case translate serialize c (data st) of
           Inl e \<Rightarrow> (Some e, st)
         | Inr message \<Rightarrow>
             (let st' = sendObjectUpdate rootObjectName message st
              in (None, if op message = ''finalize''
                        then clearSubscribers tr rootObjectName st' else st')))"

text \<open>\<^verbatim>\<open>changes.forEach\<close>: an exception ends the loop.\<close>

fun observe ::
  "'c transport \<Rightarrow> (jsval \<Rightarrow> 'w) \<Rightarrow> change list \<Rightarrow> ('c, 'w) engine \<Rightarrow> error option \<times> ('c, 'w) engine"
where
  "observe tr serialize [] st = (None, st)"
| "observe tr serialize (c # cs) st =
     (case on_change tr serialize c st of
        (Some e, st') \<Rightarrow> (Some e, st')
      | (None, st') \<Rightarrow> observe tr serialize cs st')"

definition link ::
  "'c transport \<Rightarrow> (jsval \<Rightarrow> 'w) \<Rightarrow> 'c \<Rightarrow> string \<Rightarrow> ('c, 'w) engine \<Rightarrow> error option \<times> ('c, 'w) engine"
where
  "link tr serialize client k st =
     (if data_get (data st) k = JUndefined then (Some (NoSuchKey k), st)
      else (None, ss_link tr serialize client k st))"

definition unlink :: "'c \<Rightarrow> string \<Rightarrow> ('c, 'w) engine \<Rightarrow> ('c, 'w) engine" where
  "unlink client k st = ss_unlink client k st"

section \<open>Runs of the engine\<close>

text \<open>
  What can happen to an engine: a call of \<^verbatim>\<open>link\<close> or \<^verbatim>\<open>unlink\<close>, a disconnect reported
  by the transport, and a mutation of \<^verbatim>\<open>data\<close>, after which the store calls the observer
  with its change records while \<^verbatim>\<open>data\<close> holds the new table.
\<close>

datatype 'c action =
    Link 'c string
  | Unlink 'c string
  | Disconnect 'c
  | Mutate "(string \<times> jsval) list" "change list"

fun step ::
  "'c transport \<Rightarrow> (jsval \<Rightarrow> 'w) \<Rightarrow> 'c action \<Rightarrow> ('c, 'w) engine \<Rightarrow> ('c, 'w) engine" where
  "step tr serialize (Link client k) st = snd (link tr serialize client k st)"
| "step tr serialize (Unlink client k) st = unlink client k st"
| "step tr serialize (Disconnect client) st = disconnect tr client st"
| "step tr serialize (Mutate d cs) st = snd (observe tr serialize cs (st\<lparr>data := d\<rparr>))"

fun run ::
  "'c transport \<Rightarrow> (jsval \<Rightarrow> 'w) \<Rightarrow> 'c action list \<Rightarrow> ('c, 'w) engine \<Rightarrow> ('c, 'w) engine" where
  "run tr serialize [] st = st"
| "run tr serialize (a # as) st = run tr serialize as (step tr serialize a st)"

text \<open>The clients registered for a key, once per registration.\<close>

definition subscribers :: "('c, 'w) engine \<Rightarrow> string \<Rightarrow> 'c list" where
  "subscribers st k = entries (keyToSubscribedClients st) k"

definition subscriptions :: "('c, 'w) engine \<Rightarrow> string \<Rightarrow> string list" where
  "subscriptions st i = entries (clientsToSubscriptions st) i"

text \<open>
  The messages sent to a client for a key, in order. A message is for key \<open>k\<close> when its
  \<^verbatim>\<open>key\<close> field, as a property key, is \<open>k\<close>.
\<close>

definition msg_for :: "string \<Rightarrow> 'w message \<Rightarrow> bool" where
  "msg_for k m = (key_str (key m) = k)"

definition received :: "'c \<Rightarrow> string \<Rightarrow> ('c \<times> 'w message) list \<Rightarrow> 'w message list" where
  "received client k log = map snd (filter (\<lambda>(c, m). c = client \<and> msg_for k m) log)"

section \<open>The value at a path, as the specification words it\<close>

text \<open>
  The value that a path locates inside a value: field names descend through keyed
  records, indices through sequences; any other step locates nothing.
\<close>

fun value_at :: "jsval \<Rightarrow> segment list \<Rightarrow> jsval option" where
  "value_at v [] = Some v"
| "value_at (JObj fs) (Name s # rest) =
     (case map_of fs s of None \<Rightarrow> None | Some v \<Rightarrow> value_at v rest)"
| "value_at (JArr xs) (Idx i # rest) = (if i < length xs then value_at (xs ! i) rest else None)"
| "value_at v (s # rest) = None"

text \<open>
  In the root object table: the first segment names the root key, the others the location
  within that root object.
\<close>

definition table_value_at :: "(string \<times> jsval) list \<Rightarrow> segment list \<Rightarrow> jsval option" where
  "table_value_at d p =
     (case p of
        Name k # rest \<Rightarrow> (case map_of d k of None \<Rightarrow> None | Some root \<Rightarrow> value_at root rest)
      | _ \<Rightarrow> None)"

section \<open>The transport and the mutations of the test suite\<close>

text \<open>
  \<^verbatim>\<open>buildFakeTransport\<close>: a handle is the plain object \<^verbatim>\<open>{ name }\<close> (the transport
  refuses to build a second client of the same name), \<^verbatim>\<open>id(client)\<close> is \<^verbatim>\<open>client.name\<close>,
  and a plain object used as a property key is \<^verbatim>\<open>[object Object]\<close>.
\<close>

datatype fake_client = FakeClient string

definition fake_transport :: "fake_client transport" where
  "fake_transport =
     \<lparr>tid = (\<lambda>c. case c of FakeClient n \<Rightarrow> n), handle_key = (\<lambda>c. ''[object Object]'')\<rparr>"

text \<open>A transport whose handles are the identifiers themselves, as strings.\<close>

definition string_transport :: "string transport" where
  "string_transport = \<lparr>tid = (\<lambda>c. c), handle_key = (\<lambda>c. c)\<rparr>"

definition client1 :: fake_client where
  "client1 = FakeClient ''client1''"

definition client3 :: fake_client where
  "client3 = FakeClient ''client3''"

text \<open>
  \<^verbatim>\<open>server.data['foo'] = v\<close> on a table without \<^verbatim>\<open>foo\<close>, the same assignment on a table
  that has \<^verbatim>\<open>foo\<close>, and \<^verbatim>\<open>delete server.data['foo']\<close>, each with the change record that
  the store reports.
\<close>

definition create_foo :: "jsval \<Rightarrow> 'c action" where
  "create_foo v =
     Mutate [(''foo'', v)] [\<lparr>ctype = ''insert'', cpath = [Name ''foo''], cvalue = v\<rparr>]"

definition update_foo :: "jsval \<Rightarrow> 'c action" where
  "update_foo v =
     Mutate [(''foo'', v)] [\<lparr>ctype = ''update'', cpath = [Name ''foo''], cvalue = v\<rparr>]"

definition delete_foo :: "'c action" where
  "delete_foo =
     Mutate [] [\<lparr>ctype = ''delete'', cpath = [Name ''foo''], cvalue = JUndefined\<rparr>]"

lemmas example_defs =
  fake_transport_def client1_def create_foo_def initial_def

lemmas engine_defs =
  link_def unlink_def ss_link_def ss_unlink_def unlinkSilently_def sendObjectUpdate_def
  clearSubscribers_def clearOne_def disconnect_def on_change_def translate_def changeTypes_def
  insertStyleUpdate_def updateFromPath_def path0_def field_def mol_with_def mol_set_def
  mol_push_def mol_removeAll_def data_get_def table_member_def observable_members_def
  object_prototype_members_def Let_def

section \<open>Lemmas about the registry and the log\<close>

lemma fst_with: "fst (mol_with k m) = entries m k"
  by (simp add: mol_with_def entries_def split: option.splits)

lemma entries_with: "entries (snd (mol_with k m)) k' = entries m k'"
  by (simp add: mol_with_def entries_def split: option.splits)

lemma entries_set: "entries (mol_set k v m) k' = (if k' = k then v else entries m k')"
  by (simp add: mol_set_def entries_def)

lemma entries_removeAll: "entries (mol_removeAll k m) k' = (if k' = k then [] else entries m k')"
  by (simp add: mol_removeAll_def entries_def)

lemma entries_push: "entries (mol_push k x m) k' = (if k' = k then entries m k @ [x] else entries m k')"
  by (simp add: mol_push_def mol_with_def entries_def split: option.splits)


lemma sendObjectUpdate_subscribers: "subscribers (sendObjectUpdate r m st) k = subscribers st k"
  by (simp add: sendObjectUpdate_def subscribers_def split_beta entries_with)

lemma sendObjectUpdate_sent:
  "sent (sendObjectUpdate r m st) = sent st @ map (\<lambda>c. (c, m)) (subscribers st (key_str r))"
  by (simp add: sendObjectUpdate_def subscribers_def split_beta fst_with)

lemma sendObjectUpdate_data: "data (sendObjectUpdate r m st) = data st"
  by (simp add: sendObjectUpdate_def split_beta)

lemma clearSubscribers_subscribers:
  "subscribers (clearSubscribers tr r st) k = (if k = key_str r then [] else subscribers st k)"
  by (simp add: clearSubscribers_def subscribers_def split_beta entries_removeAll entries_with)

lemma clearSubscribers_sent: "sent (clearSubscribers tr r st) = sent st"
  by (simp add: clearSubscribers_def split_beta)

lemma clearSubscribers_data: "data (clearSubscribers tr r st) = data st"
  by (simp add: clearSubscribers_def split_beta)

lemma unlinkSilently_subscribers:
  "subscribers (unlinkSilently c k st) k' =
     (if k' = k then filter (\<lambda>e. e \<noteq> c) (subscribers st k) else subscribers st k')"
  by (simp add: unlinkSilently_def subscribers_def split_beta entries_set entries_with fst_with)

lemma unlinkSilently_sent: "sent (unlinkSilently c k st) = sent st"
  by (simp add: unlinkSilently_def split_beta)

lemma unlinkSilently_data: "data (unlinkSilently c k st) = data st"
  by (simp add: unlinkSilently_def split_beta)

lemma ss_link_subscribers:
  "subscribers (ss_link tr ser c k st) k' =
     (if k' = k then subscribers st k @ [c] else subscribers st k')"
  by (simp add: ss_link_def subscribers_def entries_push)

lemma ss_link_subscriptions:
  "subscriptions (ss_link tr ser c k st) i =
     (if i = tid tr c then subscriptions st i @ [k] else subscriptions st i)"
  by (simp add: ss_link_def subscriptions_def entries_push)

lemma ss_link_sent:
  "sent (ss_link tr ser c k st) = sent st @
     [(c, \<lparr>op = ''init'', key = Some (Name k), path = None,
            val = Some (ser (data_get (data st) k))\<rparr>)]"
  by (simp add: ss_link_def)

lemma data_get_own: "field d k \<noteq> JUndefined \<Longrightarrow> data_get d k = field d k"
  by (cases "map_of d k") (simp_all add: data_get_def field_def)

lemma link_own:
  "field (data st) k \<noteq> JUndefined \<Longrightarrow> link tr ser c k st = (None, ss_link tr ser c k st)"
  using data_get_own [of "data st" k] by (simp add: link_def)


lemma ss_link_data: "data (ss_link tr ser c k st) = data st"
  by (simp add: ss_link_def)

lemma fold_unlinkSilently_sent: "sent (fold (unlinkSilently c) ks st) = sent st"
  by (induction ks arbitrary: st) (simp_all add: unlinkSilently_sent)

lemma fold_unlinkSilently_data: "data (fold (unlinkSilently c) ks st) = data st"
  by (induction ks arbitrary: st) (simp_all add: unlinkSilently_data)

lemma fold_unlinkSilently_subscribers:
  "set (subscribers (fold (unlinkSilently c) ks st) k) \<subseteq> set (subscribers st k)"
proof (induction ks arbitrary: st)
  case Nil
  show ?case by simp
next
  case (Cons a ks)
  have "set (subscribers (unlinkSilently c a st) k) \<subseteq> set (subscribers st k)"
    by (auto simp: unlinkSilently_subscribers)
  with Cons.IH [of "unlinkSilently c a st"] show ?case by auto
qed

lemma disconnect_sent: "sent (disconnect tr c st) = sent st"
  by (simp add: disconnect_def split_beta fold_unlinkSilently_sent)

lemma disconnect_data: "data (disconnect tr c st) = data st"
  by (simp add: disconnect_def split_beta fold_unlinkSilently_data)

lemma disconnect_subscribers:
  "set (subscribers (disconnect tr c st) k) \<subseteq> set (subscribers st k)"
proof -
  have "subscribers (st\<lparr>clientsToSubscriptions := m\<rparr>) k = subscribers st k" for m
    by (simp add: subscribers_def)
  from this [of "snd (mol_with (handle_key tr c) (clientsToSubscriptions st))"]
    fold_unlinkSilently_subscribers [of c "fst (mol_with (handle_key tr c) (clientsToSubscriptions st))"
      "st\<lparr>clientsToSubscriptions := snd (mol_with (handle_key tr c) (clientsToSubscriptions st))\<rparr>" k]
  show ?thesis
    by (simp add: disconnect_def split_beta)
qed

lemma translate_key: "translate ser c d = Inr m \<Longrightarrow> key m = path0 (cpath c)"
  by (auto simp: translate_def changeTypes_def insertStyleUpdate_def updateFromPath_def
      split: if_splits sum.splits)


lemma subscribers_sent_update: "subscribers (st\<lparr>sent := x\<rparr>) k = subscribers st k"
  by (simp add: subscribers_def)

lemma subscribers_data_update: "subscribers (st\<lparr>data := d\<rparr>) k = subscribers st k"
  by (simp add: subscribers_def)

lemma received_append: "received c k (xs @ ys) = received c k xs @ received c k ys"
  by (simp add: received_def)

lemma received_broadcast:
  "received c k (map (\<lambda>cl. (cl, m)) l) = (if msg_for k m then replicate (count_list l c) m else [])"
  by (induction l) (auto simp: received_def)

lemma on_change_error:
  "translate ser ch (data st) = Inl e \<Longrightarrow> on_change tr ser ch st = (Some e, st)"
  by (simp add: on_change_def)

lemma on_change_fst:
  "translate ser ch (data st) = Inr m \<Longrightarrow> fst (on_change tr ser ch st) = None"
  by (simp add: on_change_def Let_def)

lemma on_change_sent:
  "translate ser ch (data st) = Inr m \<Longrightarrow>
   sent (snd (on_change tr ser ch st)) =
     sent st @ map (\<lambda>cl. (cl, m)) (subscribers st (key_str (path0 (cpath ch))))"
  by (simp add: on_change_def Let_def clearSubscribers_sent sendObjectUpdate_sent)

lemma on_change_subscribers:
  "translate ser ch (data st) = Inr m \<Longrightarrow>
   subscribers (snd (on_change tr ser ch st)) k =
     (if op m = ''finalize'' \<and> k = key_str (path0 (cpath ch)) then [] else subscribers st k)"
  by (simp add: on_change_def Let_def clearSubscribers_subscribers sendObjectUpdate_subscribers)

lemma on_change_data: "data (snd (on_change tr ser ch st)) = data st"
  by (simp add: on_change_def Let_def clearSubscribers_data sendObjectUpdate_data
      split: sum.splits)

lemma on_change_quiet:
  assumes "c \<notin> set (subscribers st k)"
  shows "c \<notin> set (subscribers (snd (on_change tr ser ch st)) k) \<and>
         received c k (sent (snd (on_change tr ser ch st))) = received c k (sent st)"
proof (cases "translate ser ch (data st)")
  case (Inl e)
  with assms show ?thesis by (simp add: on_change_error)
next
  case (Inr m)
  have k: "key m = path0 (cpath ch)" using Inr by (rule translate_key)
  have "received c k (map (\<lambda>cl. (cl, m)) (subscribers st (key_str (path0 (cpath ch))))) = []"
    using assms k by (auto simp: received_broadcast msg_for_def count_list_0_iff)
  with assms Inr show ?thesis
    by (simp add: on_change_sent on_change_subscribers received_append)
qed

lemma observe_quiet:
  "c \<notin> set (subscribers st k) \<Longrightarrow>
   c \<notin> set (subscribers (snd (observe tr ser cs st)) k) \<and>
   received c k (sent (snd (observe tr ser cs st))) = received c k (sent st)"
proof (induction cs arbitrary: st)
  case Nil
  then show ?case by simp
next
  case (Cons ch cs)
  obtain r st' where oc: "on_change tr ser ch st = (r, st')" by (cases "on_change tr ser ch st")
  from on_change_quiet [OF Cons.prems, of tr ser ch] oc
  have q: "c \<notin> set (subscribers st' k)" "received c k (sent st') = received c k (sent st)"
    by simp_all
  show ?case
  proof (cases r)
    case None
    with oc Cons.IH [OF q(1)] q(2) show ?thesis by simp
  next
    case (Some e)
    with oc q show ?thesis by simp
  qed
qed

lemma step_quiet:
  assumes "c \<notin> set (subscribers st k)" and "a \<noteq> Link c k" and "a \<noteq> Unlink c k"
  shows "c \<notin> set (subscribers (step tr ser a st) k) \<and>
         received c k (sent (step tr ser a st)) = received c k (sent st)"
proof (cases a)
  case (Link c' k')
  with assms show ?thesis
    by (auto simp: link_def ss_link_subscribers ss_link_sent received_def msg_for_def)
next
  case (Unlink c' k')
  with assms show ?thesis
    by (auto simp: unlink_def ss_unlink_def Let_def unlinkSilently_subscribers unlinkSilently_sent
        received_def msg_for_def subscribers_sent_update)
next
  case (Disconnect c')
  with assms disconnect_subscribers [of tr c' st k] show ?thesis
    by (auto simp: disconnect_sent)
next
  case (Mutate d cs)
  have "subscribers (st\<lparr>data := d\<rparr>) k = subscribers st k" by (rule subscribers_data_update)
  with assms observe_quiet [of c "st\<lparr>data := d\<rparr>" k tr ser cs] Mutate show ?thesis by simp
qed

lemma run_quiet:
  "c \<notin> set (subscribers st k) \<Longrightarrow> \<forall>a\<in>set as. a \<noteq> Link c k \<and> a \<noteq> Unlink c k \<Longrightarrow>
   c \<notin> set (subscribers (run tr ser as st) k) \<and>
   received c k (sent (run tr ser as st)) = received c k (sent st)"
proof (induction as arbitrary: st)
  case Nil
  then show ?case by simp
next
  case (Cons a as)
  from step_quiet [of c st k a tr ser] Cons.prems
  have q: "c \<notin> set (subscribers (step tr ser a st) k)"
    "received c k (sent (step tr ser a st)) = received c k (sent st)" by simp_all
  from Cons.IH [OF q(1)] Cons.prems(2) q(2) show ?case by simp
qed


lemma on_change_received:
  assumes "translate ser ch (data st) = Inr m" and "key_str (path0 (cpath ch)) = K"
  shows "received c K (sent (snd (on_change tr ser ch st))) =
           received c K (sent st) @ replicate (count_list (subscribers st K) c) m"
proof -
  have "msg_for K m" using assms translate_key [OF assms(1)] by (simp add: msg_for_def)
  with assms show ?thesis by (simp add: on_change_sent received_append received_broadcast)
qed

lemma withPath_value_at: "value_at v p = Some w \<Longrightarrow> withPath v p = Inr w"
proof (induction v p rule: value_at.induct)
  case (1 v)
  then show ?case by simp
next
  case (2 fs s rest)
  then show ?case by (auto simp: field_def split: option.splits)
next
  case (3 xs i rest)
  then show ?case by (auto split: if_splits)
qed simp_all

lemma withPath_table:
  assumes "table_value_at d p = Some w"
  shows "withPath (JObj d) p = Inr w"
proof -
  from assms obtain k rest root where p: "p = Name k # rest" and r: "map_of d k = Some root"
    and v: "value_at root rest = Some w"
    by (auto simp: table_value_at_def split: list.splits segment.splits option.splits)
  from withPath_value_at [OF v] p r show ?thesis by (simp add: field_def)
qed

lemma mol_set_nonempty: "mol_set k v m k \<noteq> Some []"
  by (simp add: mol_set_def)

lemma clearOne_preserve: "m i \<noteq> Some [] \<Longrightarrow> clearOne tr r cl m i \<noteq> Some []"
  by (simp add: clearOne_def mol_with_def mol_set_def split: option.splits)

lemma clearOne_nonempty: "clearOne tr r cl m (handle_key tr cl) \<noteq> Some []"
  by (simp add: clearOne_def split_beta mol_set_nonempty)

lemma fold_clearOne_preserve: "m i \<noteq> Some [] \<Longrightarrow> fold (clearOne tr r) l m i \<noteq> Some []"
  by (induction l arbitrary: m) (simp_all add: clearOne_preserve)

lemma fold_clearOne_nonempty:
  "cl \<in> set l \<Longrightarrow> fold (clearOne tr r) l m (handle_key tr cl) \<noteq> Some []"
proof (induction l arbitrary: m)
  case Nil
  then show ?case by simp
next
  case (Cons a l)
  show ?case
  proof (cases "cl = a")
    case True
    then show ?thesis
      using fold_clearOne_preserve [of "clearOne tr r a m" "handle_key tr a" tr r l] clearOne_nonempty [of tr r a m]
      by simp
  next
    case False
    with Cons show ?thesis by simp
  qed
qed

lemma unlinkSilently_preserve:
  "keyToSubscribedClients st i \<noteq> Some [] \<Longrightarrow>
   keyToSubscribedClients (unlinkSilently c k st) i \<noteq> Some []"
  by (simp add: unlinkSilently_def mol_with_def mol_set_def split: option.splits)

lemma unlinkSilently_nonempty: "keyToSubscribedClients (unlinkSilently c k st) k \<noteq> Some []"
  by (simp add: unlinkSilently_def split_beta mol_set_nonempty)

lemma fold_unlinkSilently_preserve:
  "keyToSubscribedClients st i \<noteq> Some [] \<Longrightarrow>
   keyToSubscribedClients (fold (unlinkSilently c) ks st) i \<noteq> Some []"
  by (induction ks arbitrary: st) (simp_all add: unlinkSilently_preserve)

lemma fold_unlinkSilently_nonempty:
  "k \<in> set ks \<Longrightarrow> keyToSubscribedClients (fold (unlinkSilently c) ks st) k \<noteq> Some []"
proof (induction ks arbitrary: st)
  case Nil
  then show ?case by simp
next
  case (Cons a ks)
  show ?case
  proof (cases "k = a")
    case True
    then show ?thesis
      using fold_unlinkSilently_preserve [of "unlinkSilently c a st" a c ks] unlinkSilently_nonempty [of c a st]
      by simp
  next
    case False
    with Cons show ?thesis by simp
  qed
qed

lemma unlinkSilently_last:
  "set (subscribers st k) \<subseteq> {c} \<Longrightarrow> keyToSubscribedClients (unlinkSilently c k st) k = None"
proof -
  assume "set (subscribers st k) \<subseteq> {c}"
  then have "filter (\<lambda>e. e \<noteq> c) (entries (keyToSubscribedClients st) k) = []"
    by (auto simp: subscribers_def filter_empty_conv)
  then show ?thesis
    by (simp add: unlinkSilently_def split_beta fst_with mol_set_def)
qed

section \<open>Linking\<close>




text \<open>
  Claim C4 does not hold of the code for a root key that names a member of
  \<^verbatim>\<open>Object.prototype\<close>, such as \<^verbatim>\<open>constructor\<close>: with a root object stored under it the
  guard of \<^verbatim>\<open>link\<close> passes, and \<^verbatim>\<open>this.keyToSubscribedClients.with(key).push(client)\<close>
  raises a TypeError, for the reason given with \<open>MapOfLists\<close> above; nothing is registered
  and nothing is sent. That failure lies outside the maps of this model.
\<close>

text \<open>
  Claim C10. \<^verbatim>\<open>link\<close> is not idempotent. For a client \<open>c\<close> already registered for \<open>K\<close>,
  a further successful \<^verbatim>\<open>link(c, K)\<close> sends \<open>c\<close> another \<^verbatim>\<open>init\<close> and adds one more
  registration (so there are at least two); and in every state a change of \<open>K\<close> delivers
  its message to \<open>c\<close> once per registration that \<open>c\<close> holds for \<open>K\<close>.
\<close>

theorem link_again_duplicates:
  assumes "c \<in> set (subscribers st K)" and "field (data st) K \<noteq> JUndefined"
  shows "(\<exists>st'. link tr ser c K st = (None, st') \<and>
            sent st' = sent st @
              [(c, \<lparr>op = ''init'', key = Some (Name K), path = None,
                     val = Some (ser (field (data st) K))\<rparr>)] \<and>
            count_list (subscribers st' K) c = Suc (count_list (subscribers st K) c) \<and>
            2 \<le> count_list (subscribers st' K) c) \<and>
         (\<forall>st2 ch m.
            key_str (path0 (cpath ch)) = K \<longrightarrow> translate ser ch (data st2) = Inr m \<longrightarrow>
              received c K (sent (snd (on_change tr ser ch st2))) =
                received c K (sent st2) @ replicate (count_list (subscribers st2 K) c) m)"
proof -
  have registered: "0 < count_list (subscribers st K) c"
    using assms(1) count_list_0_iff [of "subscribers st K" c] by auto
  have "\<exists>st'. link tr ser c K st = (None, st') \<and>
            sent st' = sent st @
              [(c, \<lparr>op = ''init'', key = Some (Name K), path = None,
                     val = Some (ser (field (data st) K))\<rparr>)] \<and>
            count_list (subscribers st' K) c = Suc (count_list (subscribers st K) c) \<and>
            2 \<le> count_list (subscribers st' K) c"
    using registered data_get_own [OF assms(2)]
    by (simp add: link_own [OF assms(2)] ss_link_subscribers ss_link_sent)
  moreover have "received c K (sent (snd (on_change tr ser ch st2))) =
          received c K (sent st2) @ replicate (count_list (subscribers st2 K) c) m"
    if "key_str (path0 (cpath ch)) = K" "translate ser ch (data st2) = Inr m"
    for st2 :: "('a, 'b) engine" and ch m
    using on_change_received [OF that(2) that(1)] .
  ultimately show ?thesis
    by blast
qed

text \<open>
  A double link in the setting of the test \<^verbatim>\<open>field add sends update\<close>: the \<^verbatim>\<open>insert\<close>
  reaches the client twice.
\<close>

theorem link_again_duplicates_witness:
  "client1 \<in> set (subscribers
      (run fake_transport id [create_foo (JObj []), Link client1 ''foo''] initial) ''foo'') \<and>
   received client1 ''foo''
     (sent (run fake_transport id
        [create_foo (JObj []), Link client1 ''foo'', Link client1 ''foo'',
         Mutate [(''foo'', JObj [(''abc'', JStr ''def'')])]
           [\<lparr>ctype = ''insert'', cpath = [Name ''foo'', Name ''abc''], cvalue = JStr ''def''\<rparr>]]
        initial)) =
     [\<lparr>op = ''init'', key = Some (Name ''foo''), path = None, val = Some (JObj [])\<rparr>,
      \<lparr>op = ''init'', key = Some (Name ''foo''), path = None, val = Some (JObj [])\<rparr>,
      \<lparr>op = ''insert'', key = Some (Name ''foo''), path = Some [Name ''abc''],
         val = Some (JStr ''def'')\<rparr>,
      \<lparr>op = ''insert'', key = Some (Name ''foo''), path = Some [Name ''abc''],
         val = Some (JStr ''def'')\<rparr>]"
  using link_again_duplicates [where st = "run fake_transport id [create_foo (JObj []), Link client1 ''foo''] initial"
      and K = "''foo''" and tr = fake_transport and ser = id and c = client1]
  by (simp add: example_defs engine_defs subscribers_def entries_def received_def msg_for_def)

section \<open>Unlinking\<close>

text \<open>
  Claim C8. \<^verbatim>\<open>unlink(c, K)\<close> sends \<open>c\<close> exactly one message, the \<^verbatim>\<open>closed\<close> message for
  \<open>K\<close>. Afterwards no mutation (nor any other event that is not \<open>c\<close>'s own \<^verbatim>\<open>link\<close> or
  \<^verbatim>\<open>unlink\<close> of \<open>K\<close>) sends \<open>c\<close> a message for \<open>K\<close>, and a later \<^verbatim>\<open>link(c, K)\<close> succeeds
  and registers \<open>c\<close> again whenever \<open>K\<close> is defined then.
\<close>

theorem unlink_closes_and_silences:
  assumes "\<forall>a\<in>set as. a \<noteq> Link c K \<and> a \<noteq> Unlink c K"
  shows "sent (unlink c K st) = sent st @
           [(c, \<lparr>op = ''closed'', key = Some (Name K), path = None, val = None\<rparr>)] \<and>
         received c K (sent (run tr ser as (unlink c K st))) = received c K (sent (unlink c K st)) \<and>
         (field (data (run tr ser as (unlink c K st))) K \<noteq> JUndefined \<longrightarrow>
            fst (link tr ser c K (run tr ser as (unlink c K st))) = None \<and>
            c \<in> set (subscribers (snd (link tr ser c K (run tr ser as (unlink c K st)))) K))"
proof -
  have "c \<notin> set (subscribers (unlink c K st) K)"
    by (simp add: unlink_def ss_unlink_def Let_def subscribers_sent_update unlinkSilently_subscribers)
  from run_quiet [OF this assms, of tr ser] show ?thesis
    by (simp add: unlink_def ss_unlink_def Let_def unlinkSilently_sent link_own ss_link_subscribers)
qed

text \<open>
  The setting of the test \<^verbatim>\<open>value set sends update\<close>, with an \<^verbatim>\<open>unlink\<close> before the
  assignment: the client has its \<^verbatim>\<open>init\<close> and its \<^verbatim>\<open>closed\<close>, not the \<^verbatim>\<open>update\<close>, and
  can link again.
\<close>

theorem unlink_closes_and_silences_witness:
  "received client1 ''foo''
     (sent (run fake_transport id
        [create_foo (JStr ''abc''), Link client1 ''foo'', Unlink client1 ''foo'',
         update_foo (JStr ''def'')] initial)) =
     [\<lparr>op = ''init'', key = Some (Name ''foo''), path = None, val = Some (JStr ''abc'')\<rparr>,
      \<lparr>op = ''closed'', key = Some (Name ''foo''), path = None, val = None\<rparr>] \<and>
   fst (link fake_transport id client1 ''foo''
     (run fake_transport id
        [create_foo (JStr ''abc''), Link client1 ''foo'', Unlink client1 ''foo'',
         update_foo (JStr ''def'')] initial)) = None"
  using unlink_closes_and_silences [where as = "[update_foo (JStr ''def'')]" and c = client1
      and K = "''foo''" and tr = fake_transport and ser = id
      and st = "run fake_transport id [create_foo (JStr ''abc''), Link client1 ''foo''] initial"]
  by (simp add: example_defs engine_defs update_foo_def received_def msg_for_def)

section \<open>Translated messages\<close>

text \<open>
  Claim C6. For a change record of type \<^verbatim>\<open>shuffle\<close> or \<^verbatim>\<open>reverse\<close> whose path locates a
  value in the live root object table, the translator yields one message: op
  \<^verbatim>\<open>update\<close>, key the first segment of the path, path the remaining segments, value the
  codec's encoding of the value that the table now holds at the record's path.
\<close>

theorem reorder_resnapshots:
  assumes "ctype ch = ''shuffle'' \<or> ctype ch = ''reverse''"
    and "table_value_at d (cpath ch) = Some v"
  shows "\<exists>k rest. cpath ch = Name k # rest \<and>
           translate ser ch d =
             Inr \<lparr>op = ''update'', key = Some (Name k), path = Some rest, val = Some (ser v)\<rparr>"
proof -
  from assms(2) obtain k rest where p: "cpath ch = Name k # rest"
    by (auto simp: table_value_at_def split: list.splits segment.splits)
  from withPath_table [OF assms(2)] assms(1) p show ?thesis
    by (auto simp: translate_def changeTypes_def updateFromPath_def path0_def)
qed

text \<open>The test \<^verbatim>\<open>array sort sends update\<close>: the table after \<^verbatim>\<open>bar.sort()\<close>.\<close>

theorem reorder_resnapshots_witness:
  "table_value_at [(''foo'', JObj [(''bar'', JArr [JStr ''a'', JStr ''b'', JStr ''c''])])]
     [Name ''foo'', Name ''bar''] = Some (JArr [JStr ''a'', JStr ''b'', JStr ''c'']) \<and>
   translate id \<lparr>ctype = ''shuffle'', cpath = [Name ''foo'', Name ''bar''], cvalue = JUndefined\<rparr>
     [(''foo'', JObj [(''bar'', JArr [JStr ''a'', JStr ''b'', JStr ''c''])])] =
   Inr \<lparr>op = ''update'', key = Some (Name ''foo''), path = Some [Name ''bar''],
        val = Some (JArr [JStr ''a'', JStr ''b'', JStr ''c''])\<rparr>"
  using reorder_resnapshots [where ch = "\<lparr>ctype = ''shuffle'', cpath = [Name ''foo'', Name ''bar''],
        cvalue = JUndefined\<rparr>"
      and d = "[(''foo'', JObj [(''bar'', JArr [JStr ''a'', JStr ''b'', JStr ''c''])])]"
      and v = "JArr [JStr ''a'', JStr ''b'', JStr ''c'']" and ser = id]
  by (simp add: table_value_at_def)

text \<open>
  Claim C7. For a change record of type \<^verbatim>\<open>insert\<close>, \<^verbatim>\<open>update\<close> or \<^verbatim>\<open>delete\<close> (a delete
  of a whole root object apart), the message has the record's type as op, the first
  segment of the path as key and the remaining segments as path. Its value is the codec's
  encoding of the record's value for an insert or update whose value is defined, and is
  absent on a delete message. The delete records of the store carry no value, which is
  the third hypothesis: the handler of \<^verbatim>\<open>data.observe\<close> is the only caller of the
  translator.
\<close>

theorem insert_update_delete_translate:
  assumes "ctype ch = ''insert'' \<or> ctype ch = ''update'' \<or> ctype ch = ''delete''"
    and "ctype ch = ''delete'' \<Longrightarrow> length (cpath ch) \<noteq> 1"
    and "ctype ch = ''delete'' \<Longrightarrow> cvalue ch = JUndefined"
  shows "translate ser ch d =
           Inr \<lparr>op = ctype ch, key = path0 (cpath ch), path = Some (drop 1 (cpath ch)),
                val = (if ctype ch \<noteq> ''delete'' \<and> cvalue ch \<noteq> JUndefined
                       then Some (ser (cvalue ch)) else None)\<rparr>"
proof -
  from assms(1) have "changeTypes ser (ctype ch) =
      Some (\<lambda>c d. Inr (insertStyleUpdate ser (ctype ch) c))"
    by (auto simp: changeTypes_def)
  moreover from assms(2) have "\<not> (ctype ch = ''delete'' \<and> length (cpath ch) = 1)"
    by blast
  ultimately show ?thesis
    using assms(3) by (auto simp: translate_def insertStyleUpdate_def)
qed

text \<open>
  The tests \<^verbatim>\<open>field add sends update\<close> and \<^verbatim>\<open>field remove sends update\<close>: an insert
  with its value, and a delete record as the store reports it.
\<close>

theorem insert_update_delete_translate_witness:
  "translate id
     \<lparr>ctype = ''insert'', cpath = [Name ''foo'', Name ''abc''], cvalue = JStr ''def''\<rparr>
     [(''foo'', JObj [(''abc'', JStr ''def'')])] =
   Inr \<lparr>op = ''insert'', key = Some (Name ''foo''), path = Some [Name ''abc''],
        val = Some (JStr ''def'')\<rparr> \<and>
   translate id
     \<lparr>ctype = ''delete'', cpath = [Name ''foo'', Name ''abc''], cvalue = JUndefined\<rparr>
     [(''foo'', JObj [])] =
   Inr \<lparr>op = ''delete'', key = Some (Name ''foo''), path = Some [Name ''abc''], val = None\<rparr>"
  using insert_update_delete_translate [where ser = id
      and ch = "\<lparr>ctype = ''insert'', cpath = [Name ''foo'', Name ''abc''], cvalue = JStr ''def''\<rparr>"
      and d = "[(''foo'', JObj [(''abc'', JStr ''def'')])]"]
    insert_update_delete_translate [where ser = id
      and ch = "\<lparr>ctype = ''delete'', cpath = [Name ''foo'', Name ''abc''], cvalue = JUndefined\<rparr>"
      and d = "[(''foo'', JObj [])]"]
  by (simp add: path0_def)

section \<open>Root deletion\<close>

text \<open>
  Claim C1, as stated, fails on "exactly one": the \<^verbatim>\<open>finalize\<close> is broadcast over the
  list of registrations, and a client that linked twice is in the list twice. Here
  \<^verbatim>\<open>client1\<close> links \<^verbatim>\<open>foo\<close> twice, \<^verbatim>\<open>foo\<close> is deleted, and \<^verbatim>\<open>client1\<close> has two
  \<^verbatim>\<open>finalize\<close> messages.
\<close>

theorem finalize_twice_counterexample:
  "client1 \<in> set (subscribers
      (run fake_transport id [create_foo (JObj []), Link client1 ''foo'', Link client1 ''foo'']
         initial) ''foo'') \<and>
   received client1 ''foo''
     (sent (run fake_transport id
        [create_foo (JObj []), Link client1 ''foo'', Link client1 ''foo'', delete_foo]
        initial)) =
   [\<lparr>op = ''init'', key = Some (Name ''foo''), path = None, val = Some (JObj [])\<rparr>,
    \<lparr>op = ''init'', key = Some (Name ''foo''), path = None, val = Some (JObj [])\<rparr>,
    \<lparr>op = ''finalize'', key = Some (Name ''foo''), path = None, val = None\<rparr>,
    \<lparr>op = ''finalize'', key = Some (Name ''foo''), path = None, val = None\<rparr>]"
  by (simp add: example_defs engine_defs delete_foo_def subscribers_def entries_def
      received_def msg_for_def)

text \<open>
  Claim C1, amended. When the root value at \<open>K\<close> is deleted (a change record of type
  \<^verbatim>\<open>delete\<close> whose path is \<open>K\<close> alone), the \<^verbatim>\<open>finalize\<close> message for \<open>K\<close> is sent to the
  clients registered for \<open>K\<close>, once per registration: a client \<open>c\<close> receives as many as it
  has registrations, exactly one when it linked once. All registrations for \<open>K\<close> are
  then gone, and \<open>c\<close> receives no further message for \<open>K\<close> from anything that happens
  later, a redefinition of \<open>K\<close> included, until \<open>c\<close> itself calls \<^verbatim>\<open>link\<close> or \<^verbatim>\<open>unlink\<close> for
  \<open>K\<close>.
\<close>

theorem root_delete_finalizes:
  assumes "ctype ch = ''delete''" and "cpath ch = [Name K]"
    and "\<forall>a\<in>set as. a \<noteq> Link c K \<and> a \<noteq> Unlink c K"
  shows "\<exists>st'. on_change tr ser ch st = (None, st') \<and>
           sent st' = sent st @
             map (\<lambda>cl. (cl, \<lparr>op = ''finalize'', key = Some (Name K), path = None, val = None\<rparr>))
               (subscribers st K) \<and>
           received c K (sent st') = received c K (sent st) @
             replicate (count_list (subscribers st K) c)
               \<lparr>op = ''finalize'', key = Some (Name K), path = None, val = None\<rparr> \<and>
           subscribers st' K = [] \<and>
           received c K (sent (run tr ser as st')) = received c K (sent st')"
proof -
  let ?fin = "\<lparr>op = ''finalize'', key = Some (Name K), path = None, val = None\<rparr> :: 'b message"
  let ?st' = "snd (on_change tr ser ch st)"
  have b: "translate ser ch (data st) = Inr ?fin"
    using assms(1,2) by (simp add: translate_def path0_def)
  have k: "key_str (path0 (cpath ch)) = K"
    using assms(2) by (simp add: path0_def)
  have 1: "on_change tr ser ch st = (None, ?st')"
    using on_change_fst [OF b, of tr] by (simp add: prod_eq_iff)
  have 2: "sent ?st' = sent st @ map (\<lambda>cl. (cl, ?fin)) (subscribers st K)"
    using on_change_sent [OF b, of tr] k by simp
  have 3: "received c K (sent ?st') =
      received c K (sent st) @ replicate (count_list (subscribers st K) c) ?fin"
    by (rule on_change_received [OF b k])
  have 4: "subscribers ?st' K = []"
    using on_change_subscribers [OF b, of tr K] k by simp
  then have "c \<notin> set (subscribers ?st' K)"
    by simp
  from run_quiet [OF this assms(3), of tr ser]
  have 5: "received c K (sent (run tr ser as ?st')) = received c K (sent ?st')"
    by simp
  from 1 2 3 4 5 show ?thesis
    by blast
qed

text \<open>
  The test \<^verbatim>\<open>remove root sends finalize and future changes not sent\<close>: two clients
  linked once each, \<^verbatim>\<open>delete server.data['foo']\<close>, then \<^verbatim>\<open>server.data.foo = {}\<close>.
\<close>

theorem root_delete_finalizes_witness:
  "sent (run fake_transport id [create_foo (JObj [])]
     (snd (on_change fake_transport id
        \<lparr>ctype = ''delete'', cpath = [Name ''foo''], cvalue = JUndefined\<rparr>
        ((run fake_transport id [create_foo (JObj []), Link client1 ''foo'', Link client3 ''foo'']
            initial)\<lparr>data := []\<rparr>)))) =
   [(client1, \<lparr>op = ''init'', key = Some (Name ''foo''), path = None, val = Some (JObj [])\<rparr>),
    (client3, \<lparr>op = ''init'', key = Some (Name ''foo''), path = None, val = Some (JObj [])\<rparr>),
    (client1, \<lparr>op = ''finalize'', key = Some (Name ''foo''), path = None, val = None\<rparr>),
    (client3, \<lparr>op = ''finalize'', key = Some (Name ''foo''), path = None, val = None\<rparr>)]"
  using root_delete_finalizes [where tr = fake_transport and ser = id and c = client1
      and K = "''foo''" and as = "[create_foo (JObj [])]"
      and ch = "\<lparr>ctype = ''delete'', cpath = [Name ''foo''], cvalue = JUndefined\<rparr>"
      and st = "(run fake_transport id [create_foo (JObj []), Link client1 ''foo'', Link client3 ''foo'']
            initial)\<lparr>data := []\<rparr>"]
  by (simp add: example_defs engine_defs client3_def)

section \<open>The two maps of the registry\<close>

text \<open>
  Claim C2 does not hold of the code. \<^verbatim>\<open>unlinkSilently\<close> removes the client from
  \<^verbatim>\<open>keyToSubscribedClients\<close> only: after \<^verbatim>\<open>link(client1, 'foo')\<close> and
  \<^verbatim>\<open>unlink(client1, 'foo')\<close> the client is no longer under \<^verbatim>\<open>foo\<close>, while \<^verbatim>\<open>foo\<close> is
  still under the client in \<^verbatim>\<open>clientsToSubscriptions\<close>.
\<close>

theorem unlink_leaves_stale_subscription:
  "client1 \<notin> set (subscribers
      (run fake_transport id [create_foo (JStr ''abc''), Link client1 ''foo'', Unlink client1 ''foo'']
         initial) ''foo'') \<and>
   ''foo'' \<in> set (subscriptions
      (run fake_transport id [create_foo (JStr ''abc''), Link client1 ''foo'', Unlink client1 ''foo'']
         initial) (tid fake_transport client1))"
  by (simp add: example_defs engine_defs subscribers_def subscriptions_def entries_def)

text \<open>
  Claim C5 does not hold of the code. The disconnect handler looks the client's keys up
  under the handle itself, where \<^verbatim>\<open>link\<close> filed them under \<^verbatim>\<open>transport.id(client)\<close>: with
  the handles of the test transport it finds none, the client stays registered and
  still receives the next update. With handles that are their own identifiers the client
  leaves \<^verbatim>\<open>keyToSubscribedClients\<close>, and its keys stay in \<^verbatim>\<open>clientsToSubscriptions\<close>.
\<close>

theorem disconnect_keeps_registration:
  "subscribers (run fake_transport id
      [create_foo (JStr ''abc''), Link client1 ''foo'', Disconnect client1] initial) ''foo'' =
     [client1] \<and>
   sent (run fake_transport id
      [create_foo (JStr ''abc''), Link client1 ''foo'', Disconnect client1,
       update_foo (JStr ''def'')] initial) =
     [(client1, \<lparr>op = ''init'', key = Some (Name ''foo''), path = None,
                  val = Some (JStr ''abc'')\<rparr>),
      (client1, \<lparr>op = ''update'', key = Some (Name ''foo''), path = Some [],
                  val = Some (JStr ''def'')\<rparr>)] \<and>
   subscribers (run string_transport id
      [create_foo (JStr ''abc''), Link ''client1'' ''foo'', Disconnect ''client1''] initial) ''foo'' =
     [] \<and>
   subscriptions (run string_transport id
      [create_foo (JStr ''abc''), Link ''client1'' ''foo'', Disconnect ''client1''] initial)
      ''client1'' = [''foo'']"
  by (simp add: example_defs engine_defs string_transport_def update_foo_def
      subscribers_def subscriptions_def entries_def)

text \<open>
  Claim C9, as stated, fails: \<^verbatim>\<open>with\<close> creates the entry it does not find, so a
  broadcast to a key without subscribers leaves an empty list behind. This is the
  assignment of the test \<^verbatim>\<open>change with no subscriber is no problem\<close>.
\<close>

theorem broadcast_leaves_empty_list_counterexample:
  "keyToSubscribedClients
     (run fake_transport id [create_foo (JObj [(''bar'', JStr ''abc'')])] initial) ''foo'' =
   Some []"
  by (simp add: example_defs engine_defs)

text \<open>
  Claim C9, amended. \<^verbatim>\<open>set\<close> never stores an empty list, so a removal leaves either a
  non-empty list or no entry: after \<^verbatim>\<open>unlink(c, K)\<close> the entry of \<open>K\<close> in
  \<^verbatim>\<open>keyToSubscribedClients\<close> is not an empty list, and is gone when \<open>c\<close> was the last
  subscriber; after \<^verbatim>\<open>clearSubscribers\<close> the entry of the key is gone and no client it
  visited has an empty list in \<^verbatim>\<open>clientsToSubscriptions\<close>; after a disconnect no key it
  visited has an empty list. (A lookup of an absent key through \<^verbatim>\<open>with\<close>, as in a
  broadcast, does create an empty list and keeps it.)
\<close>

theorem removal_prunes_entry:
  "mol_set k v m k \<noteq> Some [] \<and>
   keyToSubscribedClients (unlink c K st) K \<noteq> Some [] \<and>
   (set (subscribers st K) \<subseteq> {c} \<longrightarrow> keyToSubscribedClients (unlink c K st) K = None) \<and>
   keyToSubscribedClients (clearSubscribers tr r st) (key_str r) = None \<and>
   (\<forall>cl\<in>set (subscribers st (key_str r)).
      clientsToSubscriptions (clearSubscribers tr r st) (handle_key tr cl) \<noteq> Some []) \<and>
   (\<forall>k'\<in>set (subscriptions st (handle_key tr c)).
      keyToSubscribedClients (disconnect tr c st) k' \<noteq> Some [])"
proof -
  have 1: "keyToSubscribedClients (unlink c K st) K \<noteq> Some []"
    using unlinkSilently_nonempty [of c K st] by (simp add: unlink_def ss_unlink_def Let_def)
  have 2: "keyToSubscribedClients (unlink c K st) K = None" if "set (subscribers st K) \<subseteq> {c}"
    using unlinkSilently_last [OF that] by (simp add: unlink_def ss_unlink_def Let_def)
  have 3: "keyToSubscribedClients (clearSubscribers tr r st) (key_str r) = None"
    by (simp add: clearSubscribers_def split_beta mol_removeAll_def)
  have 4: "clientsToSubscriptions (clearSubscribers tr r st) (handle_key tr cl) \<noteq> Some []"
    if "cl \<in> set (subscribers st (key_str r))" for cl
    using fold_clearOne_nonempty [of cl "subscribers st (key_str r)" tr r "clientsToSubscriptions st"] that
    by (simp add: clearSubscribers_def split_beta fst_with subscribers_def)
  have 5: "keyToSubscribedClients (disconnect tr c st) k' \<noteq> Some []"
    if "k' \<in> set (subscriptions st (handle_key tr c))" for k'
    using fold_unlinkSilently_nonempty [of k' "subscriptions st (handle_key tr c)" c] that
    by (simp add: disconnect_def split_beta fst_with subscriptions_def)
  from mol_set_nonempty 1 2 3 4 5 show ?thesis
    by blast
qed

text \<open>
  One client linked to \<^verbatim>\<open>foo\<close>: its \<^verbatim>\<open>unlink\<close>, and likewise a \<^verbatim>\<open>clearSubscribers\<close> of
  \<^verbatim>\<open>foo\<close>, removes the entry of \<^verbatim>\<open>foo\<close>.
\<close>

theorem removal_prunes_entry_witness:
  "subscribers (run fake_transport id [create_foo (JObj []), Link client1 ''foo''] initial) ''foo'' =
     [client1] \<and>
   keyToSubscribedClients
     (unlink client1 ''foo''
        (run fake_transport id [create_foo (JObj []), Link client1 ''foo''] initial)) ''foo'' = None \<and>
   keyToSubscribedClients
     (clearSubscribers fake_transport (Some (Name ''foo''))
        (run fake_transport id [create_foo (JObj []), Link client1 ''foo''] initial)) ''foo'' = None"
  using removal_prunes_entry [where c = client1 and K = "''foo''" and tr = fake_transport
      and r = "Some (Name ''foo'')" and k = "''foo''" and v = "[] :: fake_client list" and m = Map.empty
      and st = "run fake_transport id [create_foo (JObj []), Link client1 ''foo''] initial"]
  by (simp add: example_defs engine_defs subscribers_def entries_def)

end
